theory Spec2Isabelle
  imports Main "HOL-Library.Sublist"
begin

section \<open>Python values used by tester.py\<close>

text \<open>
  A Python \<open>str\<close> is a sequence of code points. The model uses \<^typ>\<open>string\<close>, a list of
  \<^typ>\<open>char\<close>, and reads each \<^typ>\<open>char\<close> as the code point of the same number
  (0 to 255); \<open>isspace\<close> and \<open>lower\<close> below are Python's on that range.
\<close>

definition isspace :: "char \<Rightarrow> bool" where
  \<comment> \<open>\<open>str.isspace\<close> on one code point: TAB, LF, VT, FF, CR, FS, GS, RS, US, SPACE,
      NEL (0x85) and NBSP (0xA0).\<close>
  "isspace c =
     (let n = (of_char c :: nat)
      in (9 \<le> n \<and> n \<le> 13) \<or> (28 \<le> n \<and> n \<le> 32) \<or> n = 133 \<or> n = 160)"

definition strip :: "string \<Rightarrow> string" where
  \<comment> \<open>\<open>str.strip()\<close> with no argument: whitespace is dropped at both ends.\<close>
  "strip s = rev (dropWhile isspace (rev (dropWhile isspace s)))"

definition lower_char :: "char \<Rightarrow> char" where
  \<comment> \<open>lower-case mapping of one code point below 256: A-Z, and the Latin-1 capitals
      0xC0-0xDE without the multiplication sign 0xD7, move up by 32.\<close>
  "lower_char c =
     (let n = (of_char c :: nat)
      in if (65 \<le> n \<and> n \<le> 90) \<or> (192 \<le> n \<and> n \<le> 222 \<and> n \<noteq> 215)
         then char_of (n + 32) else c)"

definition lower :: "string \<Rightarrow> string" where
  \<comment> \<open>\<open>str.lower()\<close>\<close>
  "lower s = map lower_char s"

fun str_nat :: "nat \<Rightarrow> string" where
  "str_nat n =
     (if n < 10 then [char_of (48 + n)]
      else str_nat (n div 10) @ [char_of (48 + n mod 10)])"

definition str_int :: "int \<Rightarrow> string" where
  \<comment> \<open>\<open>str(i)\<close>, which is what an f-string field \<open>{i}\<close> inserts for an int\<close>
  "str_int i = (if i < 0 then CHR ''-'' # str_nat (nat (- i)) else str_nat (nat i))"

text \<open>
  An exception object: its class name and \<open>str(e)\<close>. The type stands for the instances
  of Python's \<open>Exception\<close>, which is what \<open>input\<close> and \<open>requests.post\<close> raise and what
  \<open>except Exception\<close> matches.
\<close>

datatype py_exception = PyException (exc_class: string) (exc_str: string)

definition EOFError :: py_exception where
  \<comment> \<open>what \<open>input()\<close> raises at the end of standard input\<close>
  "EOFError = PyException ''EOFError'' ''EOF when reading a line''"

section \<open>The environment: the HTTP library, standard input, and the trace of effects\<close>

record http_request =
  req_method :: string
  req_url :: string
  req_data :: "(string \<times> string) list"

record response =
  status_code :: int
  body_text :: string

text \<open>
  \<open>requests.post\<close> is not code of this repository: it is a parameter of the model, a
  function from the state of the outside world and the request to the outcome of the call
  (a response, or an exception raised) and the next state of the world.
\<close>

type_synonym 'w http_post = "'w \<Rightarrow> http_request \<Rightarrow> (py_exception + response) \<times> 'w"

text \<open>
  What the program does to the outside, in order: \<open>Print s\<close> is \<open>print(s)\<close>,
  \<open>Prompt p\<close> is the prompt that \<open>input(p)\<close> writes before it reads, and \<open>Post r\<close> is one
  call of \<open>requests.post\<close>.
\<close>

datatype effect = Print string | Prompt string | Post http_request

text \<open>
  Standard input is a finite script of read events: a line (without its newline), or an
  exception raised by the read. Reading past the end of the script raises \<open>EOFError\<close>.
\<close>

datatype stdin_event = Line string | ReadRaises py_exception

section \<open>tester.py\<close>

text \<open>
  Every function returns the effects it had, in order, how it ended (\<open>Inr\<close>: it returned;
  \<open>Inl e\<close>: the exception \<open>e\<close> left it) and the state of the outside world.
\<close>

definition analyze_request :: "string \<Rightarrow> http_request" where
  \<comment> \<open>the call of line 6:
      \<open>requests.post("http://localhost:4567/analyze", data={'url': url})\<close>\<close>
  "analyze_request url =
     \<lparr>req_method = ''POST'', req_url = ''http://localhost:4567/analyze'',
      req_data = [(''url'', url)]\<rparr>"

definition try_block ::
  "'w http_post \<Rightarrow> 'w \<Rightarrow> string \<Rightarrow> effect list \<times> (py_exception + unit) \<times> 'w" where
  \<comment> \<open>the body of the \<open>try\<close> of \<open>send_url_to_server\<close>, lines 6 to 13\<close>
  "try_block post w url =
     (let req = analyze_request url
      in case post w req of
           (Inl e, w') \<Rightarrow> ([Post req], Inl e, w')
         | (Inr response, w') \<Rightarrow>
             if status_code response = 200
             then ([Post req,
                    Print ''Server Response:'',
                    Print (replicate 40 CHR ''-''),
                    Print (strip (body_text response)),
                    Print (replicate 40 CHR ''-'')], Inr (), w')
             else ([Post req,
                    Print (''Error occurred while sending the request. Response code: ''
                           @ str_int (status_code response))], Inr (), w'))"

definition send_url_to_server ::
  "'w http_post \<Rightarrow> 'w \<Rightarrow> string \<Rightarrow> effect list \<times> (py_exception + unit) \<times> 'w" where
  \<comment> \<open>\<open>try: ... except Exception as e: print(f"An error occurred: {e}")\<close>\<close>
  "send_url_to_server post w url =
     (case try_block post w url of
        (effs, Inl e, w') \<Rightarrow> (effs @ [Print (''An error occurred: '' @ exc_str e)], Inr (), w')
      | (effs, Inr u, w') \<Rightarrow> (effs, Inr (), w'))"

text \<open>How one pass through the body of \<open>while True\<close> ends.\<close>

datatype control = Continue | Break | Raise py_exception

definition loop_body ::
  "'w http_post \<Rightarrow> 'w \<Rightarrow> string \<Rightarrow> effect list \<times> control \<times> 'w" where
  \<comment> \<open>lines 21 to 28, for a pass in which \<open>input("URL: ")\<close> returned \<open>line\<close>\<close>
  "loop_body post w line =
     (let url = strip line
      in if lower url = ''exit'' then ([Prompt ''URL: '', Print ''Exiting...''], Break, w)
         else if url \<noteq> [] then
           (case send_url_to_server post w url of
              (effs, Inl e, w') \<Rightarrow> (Prompt ''URL: '' # effs, Raise e, w')
            | (effs, Inr u, w') \<Rightarrow> (Prompt ''URL: '' # effs, Continue, w'))
         else ([Prompt ''URL: '', Print ''Please enter a valid URL.''], Continue, w))"

fun main_loop ::
  "'w http_post \<Rightarrow> 'w \<Rightarrow> stdin_event list \<Rightarrow> effect list \<times> (py_exception + unit) \<times> 'w" where
  \<comment> \<open>\<open>while True\<close>: an exception raised by \<open>input\<close> is not handled and leaves the loop\<close>
  "main_loop post w [] = ([Prompt ''URL: ''], Inl EOFError, w)"
| "main_loop post w (ReadRaises e # rest) = ([Prompt ''URL: ''], Inl e, w)"
| "main_loop post w (Line l # rest) =
     (case loop_body post w l of
        (effs, Break, w') \<Rightarrow> (effs, Inr (), w')
      | (effs, Raise e, w') \<Rightarrow> (effs, Inl e, w')
      | (effs, Continue, w') \<Rightarrow>
          (case main_loop post w' rest of (effs', r, w'') \<Rightarrow> (effs @ effs', r, w'')))"

definition main ::
  "'w http_post \<Rightarrow> 'w \<Rightarrow> stdin_event list \<Rightarrow> effect list \<times> (py_exception + unit) \<times> 'w" where
  "main post w stdin =
     (case main_loop post w stdin of
        (effs, r, w') \<Rightarrow>
          (Print ''Enter a URL to analyze (or type 'exit' to quit):'' # effs, r, w'))"

section \<open>Observations on a trace\<close>

fun posts :: "effect list \<Rightarrow> http_request list" where
  \<comment> \<open>the HTTP requests of a trace, in order\<close>
  "posts [] = []"
| "posts (Post r # effs) = r # posts effs"
| "posts (e # effs) = posts effs"

fun prints :: "effect list \<Rightarrow> string list" where
  \<comment> \<open>the arguments of the \<open>print\<close> calls of a trace, in order\<close>
  "prints [] = []"
| "prints (Print s # effs) = s # prints effs"
| "prints (e # effs) = prints effs"

definition mock_server :: "(py_exception + response) \<Rightarrow> unit http_post" where
  \<comment> \<open>a test double for \<open>requests.post\<close>: every call has the given outcome\<close>
  "mock_server outcome w req = (outcome, w)"




text \<open>
  The state machine as the specification words it: two states; \<open>Terminated\<close> is reached
  only by an input whose trimmed form is "exit" in any casing, every other input stays in
  \<open>AwaitingInput\<close>.
\<close>

datatype machine_state = AwaitingInput | Terminated

fun spec_step :: "machine_state \<Rightarrow> string \<Rightarrow> machine_state" where
  "spec_step Terminated line = Terminated"
| "spec_step AwaitingInput line =
     (if lower (strip line) = ''exit'' then Terminated else AwaitingInput)"

fun state_after :: "control \<Rightarrow> machine_state option" where
  \<comment> \<open>where one pass of the loop leaves the program; an exception leaves the loop
      for neither state\<close>
  "state_after Continue = Some AwaitingInput"
| "state_after Break = Some Terminated"
| "state_after (Raise e) = None"

fun lines_read :: "stdin_event list \<Rightarrow> string list" where
  \<comment> \<open>the lines the loop reads and goes on after: those before the first "exit" line and
      before the first read that raises\<close>
  "lines_read [] = []"
| "lines_read (ReadRaises e # rest) = []"
| "lines_read (Line l # rest) =
     (if lower (strip l) = ''exit'' then [] else l # lines_read rest)"

section \<open>The branches of \<open>send_url_to_server\<close>\<close>

lemma send_url_raised:
  "post w (analyze_request url) = (Inl e, w') \<Longrightarrow>
   send_url_to_server post w url =
     ([Post (analyze_request url), Print (''An error occurred: '' @ exc_str e)], Inr (), w')"
  by (simp add: send_url_to_server_def try_block_def)

lemma send_url_200:
  "post w (analyze_request url) = (Inr resp, w') \<Longrightarrow> status_code resp = 200 \<Longrightarrow>
   send_url_to_server post w url =
     ([Post (analyze_request url), Print ''Server Response:'', Print (replicate 40 CHR ''-''),
       Print (strip (body_text resp)), Print (replicate 40 CHR ''-'')], Inr (), w')"
  by (simp add: send_url_to_server_def try_block_def)

lemma send_url_other:
  "post w (analyze_request url) = (Inr resp, w') \<Longrightarrow> status_code resp \<noteq> 200 \<Longrightarrow>
   send_url_to_server post w url =
     ([Post (analyze_request url),
       Print (''Error occurred while sending the request. Response code: ''
              @ str_int (status_code resp))], Inr (), w')"
  by (simp add: send_url_to_server_def try_block_def)

lemma send_url_returns: "fst (snd (send_url_to_server post w url)) = Inr ()"
  by (simp add: send_url_to_server_def split: prod.splits sum.splits)

lemma send_url_posts: "posts (fst (send_url_to_server post w url)) = [analyze_request url]"
proof (cases "post w (analyze_request url)")
  case (Pair outcome w')
  show ?thesis
  proof (cases outcome)
    case (Inl e)
    with Pair show ?thesis by (simp add: send_url_raised)
  next
    case (Inr resp)
    with Pair show ?thesis
      by (cases "status_code resp = 200") (simp_all add: send_url_200 send_url_other)
  qed
qed

section \<open>What \<open>strip\<close> removes\<close>

lemma strip_decomp:
  "\<exists>pre suf. s = pre @ strip s @ suf \<and> (\<forall>c\<in>set pre. isspace c) \<and> (\<forall>c\<in>set suf. isspace c)"
proof -
  let ?t = "dropWhile isspace s"
  have a: "s = takeWhile isspace s @ ?t" by simp
  have "strip s @ rev (takeWhile isspace (rev ?t)) =
        rev (takeWhile isspace (rev ?t) @ dropWhile isspace (rev ?t))"
    by (simp only: strip_def rev_append)
  also have "\<dots> = ?t"
    by (simp only: takeWhile_dropWhile_id rev_rev_ident)
  finally have b: "?t = strip s @ rev (takeWhile isspace (rev ?t))"
    by simp
  have c: "\<forall>c\<in>set (takeWhile isspace s). isspace c"
    by (auto dest: set_takeWhileD)
  have d: "\<forall>c\<in>set (rev (takeWhile isspace (rev ?t))). isspace c"
    by (auto dest: set_takeWhileD)
  from a b have "s = takeWhile isspace s @ strip s @ rev (takeWhile isspace (rev ?t))"
    by simp
  with c d show ?thesis by blast
qed

lemma strip_ends:
  assumes "strip s \<noteq> []"
  shows "\<not> isspace (hd (strip s)) \<and> \<not> isspace (last (strip s))"
proof -
  let ?t = "dropWhile isspace s"
  let ?u = "dropWhile isspace (rev ?t)"
  from assms have u: "?u \<noteq> []" by (simp add: strip_def)
  have t: "?t \<noteq> []"
  proof
    assume e: "?t = []"
    have "?u = []" unfolding e by simp
    with u show False by simp
  qed
  have "last (strip s) = hd ?u" using u by (simp add: strip_def last_rev)
  moreover have "\<not> isspace (hd ?u)" using u by (rule hd_dropWhile)
  moreover have "hd (strip s) = last ?u" using u by (simp add: strip_def hd_rev)
  moreover have "last ?u = last (rev ?t)"
    using u by (metis last_appendR takeWhile_dropWhile_id)
  moreover have "last (rev ?t) = hd ?t" using t by (simp add: last_rev)
  moreover have "\<not> isspace (hd ?t)" using t by (rule hd_dropWhile)
  ultimately show ?thesis by simp
qed


section \<open>The branches of the loop body\<close>

lemma loop_body_exit:
  "lower (strip line) = ''exit'' \<Longrightarrow>
   loop_body post w line = ([Prompt ''URL: '', Print ''Exiting...''], Break, w)"
  by (simp add: loop_body_def)

lemma loop_body_empty:
  "strip line = [] \<Longrightarrow>
   loop_body post w line = ([Prompt ''URL: '', Print ''Please enter a valid URL.''], Continue, w)"
  by (simp add: loop_body_def lower_def)

lemma loop_body_send:
  assumes "strip line \<noteq> []" and "lower (strip line) \<noteq> ''exit''"
  shows "loop_body post w line =
           (Prompt ''URL: '' # fst (send_url_to_server post w (strip line)), Continue,
            snd (snd (send_url_to_server post w (strip line))))"
proof (cases "send_url_to_server post w (strip line)")
  case (fields effs r w')
  with send_url_returns [of post w "strip line"] have "r = Inr ()" by simp
  with fields assms show ?thesis by (simp add: loop_body_def)
qed

lemma main_loop_starts_with_prompt: "hd (fst (main_loop post w stdin)) = Prompt ''URL: ''"
proof (cases stdin)
  case Nil
  then show ?thesis by simp
next
  case (Cons ev rest)
  show ?thesis
  proof (cases ev)
    case (ReadRaises e)
    with Cons show ?thesis by simp
  next
    case (Line l)
    have "\<exists>effs. fst (loop_body post w l) = Prompt ''URL: '' # effs"
      by (simp add: loop_body_def Let_def split: prod.splits sum.splits)
    then obtain effs where "fst (loop_body post w l) = Prompt ''URL: '' # effs" ..
    with Cons Line show ?thesis
      by (cases "loop_body post w l") (simp split: control.splits prod.splits)
  qed
qed

section \<open>Which strings \<open>lower\<close> maps to "exit"\<close>

lemma of_char_lower_char:
  "(of_char (lower_char c) :: nat) =
     (if (65 \<le> (of_char c :: nat) \<and> (of_char c :: nat) \<le> 90) \<or>
         (192 \<le> (of_char c :: nat) \<and> (of_char c :: nat) \<le> 222 \<and> (of_char c :: nat) \<noteq> 215)
      then of_char c + 32 else of_char c)"
  by (auto simp: lower_char_def Let_def)

lemma char_eq_char_of:
  assumes "(j::nat) < 256"
  shows "c = char_of j \<longleftrightarrow> (of_char c :: nat) = j"
proof -
  have "c = char_of j \<longleftrightarrow> (of_char c :: nat) = of_char (char_of j :: char)"
    by (simp only: of_char_eq_iff)
  also have "(of_char (char_of j :: char) :: nat) = j"
    using assms by simp
  finally show ?thesis .
qed

lemma lower_char_eq_iff:
  assumes "(97::nat) \<le> k" and "k \<le> 122"
  shows "lower_char c = char_of k \<longleftrightarrow> c = char_of k \<or> c = char_of (k - 32)"
proof -
  have "lower_char c = char_of k \<longleftrightarrow> (of_char (lower_char c) :: nat) = k"
    using assms by (simp add: char_eq_char_of)
  also have "\<dots> \<longleftrightarrow> (of_char c :: nat) = k \<or> (of_char c :: nat) = k - 32"
    using assms by (auto simp: of_char_lower_char)
  also have "\<dots> \<longleftrightarrow> c = char_of k \<or> c = char_of (k - 32)"
    using assms by (simp add: char_eq_char_of)
  finally show ?thesis .
qed

lemma lower_char_exit_letters:
  "lower_char c = CHR ''e'' \<longleftrightarrow> c \<in> set ''eE''"
  "lower_char c = CHR ''x'' \<longleftrightarrow> c \<in> set ''xX''"
  "lower_char c = CHR ''i'' \<longleftrightarrow> c \<in> set ''iI''"
  "lower_char c = CHR ''t'' \<longleftrightarrow> c \<in> set ''tT''"
proof -
  have e: "CHR ''e'' = char_of (101::nat)" "CHR ''E'' = char_of (101 - 32 :: nat)"
    and x: "CHR ''x'' = char_of (120::nat)" "CHR ''X'' = char_of (120 - 32 :: nat)"
    and i: "CHR ''i'' = char_of (105::nat)" "CHR ''I'' = char_of (105 - 32 :: nat)"
    and t: "CHR ''t'' = char_of (116::nat)" "CHR ''T'' = char_of (116 - 32 :: nat)"
    by (rule of_char_eqI [where ?'a = nat], simp)+
  have "lower_char c = CHR ''e'' \<longleftrightarrow> c = CHR ''e'' \<or> c = CHR ''E''"
    unfolding e by (rule lower_char_eq_iff) simp_all
  then show "lower_char c = CHR ''e'' \<longleftrightarrow> c \<in> set ''eE''" by simp
  have "lower_char c = CHR ''x'' \<longleftrightarrow> c = CHR ''x'' \<or> c = CHR ''X''"
    unfolding x by (rule lower_char_eq_iff) simp_all
  then show "lower_char c = CHR ''x'' \<longleftrightarrow> c \<in> set ''xX''" by simp
  have "lower_char c = CHR ''i'' \<longleftrightarrow> c = CHR ''i'' \<or> c = CHR ''I''"
    unfolding i by (rule lower_char_eq_iff) simp_all
  then show "lower_char c = CHR ''i'' \<longleftrightarrow> c \<in> set ''iI''" by simp
  have "lower_char c = CHR ''t'' \<longleftrightarrow> c = CHR ''t'' \<or> c = CHR ''T''"
    unfolding t by (rule lower_char_eq_iff) simp_all
  then show "lower_char c = CHR ''t'' \<longleftrightarrow> c \<in> set ''tT''" by simp
qed

lemma lower_eq_exit_iff:
  "lower s = ''exit'' \<longleftrightarrow>
     (\<exists>a\<in>set ''eE''. \<exists>b\<in>set ''xX''. \<exists>c\<in>set ''iI''. \<exists>d\<in>set ''tT''. s = [a, b, c, d])"
proof
  assume "lower s = ''exit''"
  then obtain a b c d where "s = [a, b, c, d]" "lower_char a = CHR ''e''"
    "lower_char b = CHR ''x''" "lower_char c = CHR ''i''" "lower_char d = CHR ''t''"
    by (auto simp: lower_def map_eq_Cons_conv)
  then show "\<exists>a\<in>set ''eE''. \<exists>b\<in>set ''xX''. \<exists>c\<in>set ''iI''. \<exists>d\<in>set ''tT''. s = [a, b, c, d]"
    by (simp only: lower_char_exit_letters) blast
next
  assume "\<exists>a\<in>set ''eE''. \<exists>b\<in>set ''xX''. \<exists>c\<in>set ''iI''. \<exists>d\<in>set ''tT''. s = [a, b, c, d]"
  then obtain a b c d where "s = [a, b, c, d]" "a \<in> set ''eE''" "b \<in> set ''xX''"
    "c \<in> set ''iI''" "d \<in> set ''tT''" by blast
  then show "lower s = ''exit''"
    by (simp only: lower_char_exit_letters [symmetric] lower_def list.map)
qed

section \<open>The loop over a whole standard input\<close>

lemma posts_append: "posts (xs @ ys) = posts xs @ posts ys"
  by (induction xs rule: posts.induct) simp_all

lemma loop_body_control:
  "fst (snd (loop_body post w line)) = (if lower (strip line) = ''exit'' then Break else Continue)"
proof (cases "lower (strip line) = ''exit''")
  case True
  then show ?thesis by (simp add: loop_body_exit)
next
  case False
  then show ?thesis
    by (cases "strip line = []") (simp_all add: loop_body_empty loop_body_send)
qed

lemma loop_body_posts:
  "posts (fst (loop_body post w line)) =
     (if lower (strip line) \<noteq> ''exit'' \<and> strip line \<noteq> [] then [analyze_request (strip line)]
      else [])"
proof (cases "lower (strip line) = ''exit''")
  case True
  then show ?thesis by (simp add: loop_body_exit)
next
  case False
  then show ?thesis
    by (cases "strip line = []") (simp_all add: loop_body_empty loop_body_send send_url_posts)
qed

lemma main_loop_continue:
  assumes "lower (strip l) \<noteq> ''exit''"
  shows "main_loop post w (Line l # rest) =
           (fst (loop_body post w l) @ fst (main_loop post (snd (snd (loop_body post w l))) rest),
            snd (main_loop post (snd (snd (loop_body post w l))) rest))"
proof (cases "loop_body post w l")
  case (fields effs c w')
  with loop_body_control [of post w l] assms have "c = Continue" by simp
  with fields show ?thesis by (simp split: prod.splits)
qed

lemma main_loop_break:
  assumes "lower (strip l) = ''exit''"
  shows "main_loop post w (Line l # rest) = ([Prompt ''URL: '', Print ''Exiting...''], Inr (), w)"
  using assms by (simp add: loop_body_exit)

lemma posts_main_loop:
  "posts (fst (main_loop post w stdin)) =
     map (\<lambda>l. analyze_request (strip l)) (filter (\<lambda>l. strip l \<noteq> []) (lines_read stdin))"
proof (induction stdin arbitrary: w)
  case Nil
  show ?case by simp
next
  case (Cons ev rest)
  show ?case
  proof (cases ev)
    case (ReadRaises e)
    then show ?thesis by simp
  next
    case (Line l)
    show ?thesis
    proof (cases "lower (strip l) = ''exit''")
      case True
      with Line show ?thesis by (simp add: main_loop_break del: main_loop.simps)
    next
      case False
      with Line show ?thesis
        by (simp add: main_loop_continue posts_append loop_body_posts Cons.IH
            del: main_loop.simps)
    qed
  qed
qed

lemma main_effects:
  "fst (main post w stdin) =
     Print ''Enter a URL to analyze (or type 'exit' to quit):'' # fst (main_loop post w stdin)"
  by (simp add: main_def split: prod.splits)

lemma main_result: "fst (snd (main post w stdin)) = fst (snd (main_loop post w stdin))"
  by (simp add: main_def split: prod.splits)

lemma foldl_spec_step_Terminated: "foldl spec_step Terminated ls = Terminated"
  by (induction ls) simp_all

lemma spec_run_Terminated_iff:
  "foldl spec_step AwaitingInput ls = Terminated \<longleftrightarrow> (\<exists>l\<in>set ls. lower (strip l) = ''exit'')"
  by (induction ls) (simp_all add: foldl_spec_step_Terminated)

lemma main_loop_lines_result:
  "fst (snd (main_loop post w (map Line ls))) =
     (if foldl spec_step AwaitingInput ls = Terminated then Inr () else Inl EOFError)"
proof (induction ls arbitrary: w)
  case Nil
  show ?case by simp
next
  case (Cons l ls)
  show ?case
  proof (cases "lower (strip l) = ''exit''")
    case True
    then show ?thesis
      by (simp add: main_loop_break foldl_spec_step_Terminated del: main_loop.simps)
  next
    case False
    then show ?thesis
      by (simp add: main_loop_continue Cons.IH del: main_loop.simps)
  qed
qed

lemma main_loop_skips:
  assumes "list_all (\<lambda>l. lower (strip l) \<noteq> ''exit'') ls"
  shows "\<exists>effs w'. fst (main_loop post w (map Line ls @ tail)) =
                      effs @ fst (main_loop post w' tail)
                  \<and> fst (snd (main_loop post w (map Line ls @ tail))) =
                      fst (snd (main_loop post w' tail))"
  using assms
proof (induction ls arbitrary: w)
  case Nil
  have "fst (main_loop post w tail) = [] @ fst (main_loop post w tail)" by simp
  then show ?case by force
next
  case (Cons l ls)
  let ?w1 = "snd (snd (loop_body post w l))"
  from Cons.prems have "list_all (\<lambda>l. lower (strip l) \<noteq> ''exit'') ls" by simp
  from Cons.IH [OF this, of ?w1] obtain effs w' where
    a: "fst (main_loop post ?w1 (map Line ls @ tail)) = effs @ fst (main_loop post w' tail)"
    and b: "fst (snd (main_loop post ?w1 (map Line ls @ tail))) =
            fst (snd (main_loop post w' tail))"
    by blast
  from Cons.prems have ne: "lower (strip l) \<noteq> ''exit''" by simp
  have "fst (main_loop post w (map Line (l # ls) @ tail)) =
          (fst (loop_body post w l) @ effs) @ fst (main_loop post w' tail)"
    using ne a by (simp add: main_loop_continue del: main_loop.simps)
  moreover have "fst (snd (main_loop post w (map Line (l # ls) @ tail))) =
          fst (snd (main_loop post w' tail))"
    using ne b by (simp add: main_loop_continue del: main_loop.simps)
  ultimately show ?case by blast
qed

section \<open>Concrete inputs\<close>

lemma strip_exit_examples:
  "strip ''exit'' = ''exit''" "strip ''EXIT'' = ''EXIT''" "strip ''  Exit '' = ''Exit''"
  by (simp_all add: strip_def isspace_def)

lemma lower_exit_examples:
  "lower ''exit'' = ''exit''" "lower ''EXIT'' = ''exit''" "lower ''Exit'' = ''exit''"
  by (simp_all add: lower_eq_exit_iff)

lemma strip_url_example: "strip '' http://a '' = ''http://a''"
  by (simp add: strip_def isspace_def)

lemma lower_url_example: "lower ''http://a'' \<noteq> ''exit''"
  by (simp add: lower_eq_exit_iff)

lemma example_lines:
  "strip ''http://a'' = ''http://a''" "strip [] = []" "strip ''b'' = ''b''"
  "lower ''b'' \<noteq> ''exit''" "lower [] \<noteq> ''exit''"
  by (simp_all add: strip_def isspace_def lower_eq_exit_iff)

lemma str_int_404: "str_int 404 = ''404''"
  by code_simp

section \<open>The claims\<close>

text \<open>
  C1, as the specification states it, has the raw line as the value of the \<open>url\<close> field. The
  loop strips the line before anything else (line 21), so the claim fails on a line with
  surrounding whitespace (the counterexample follows the witness). What holds is C1 with
  the trimmed line: for every input line whose trimmed form is non-empty and is not "exit" in
  any casing, the pass through the loop issues exactly one HTTP request, a POST to
  \<open>http://localhost:4567/analyze\<close> whose form has the single field \<open>url\<close>, and the value of
  that field is the line with leading and trailing whitespace removed.
\<close>

theorem one_post_with_trimmed_line:
  assumes "strip line \<noteq> []" and "lower (strip line) \<noteq> ''exit''"
  shows "posts (fst (loop_body post w line)) =
           [\<lparr>req_method = ''POST'', req_url = ''http://localhost:4567/analyze'',
             req_data = [(''url'', strip line)]\<rparr>]"
  using assms by (simp add: loop_body_send send_url_posts analyze_request_def)

theorem one_post_with_trimmed_line_witness:
  "strip '' http://a '' \<noteq> [] \<and> lower (strip '' http://a '') \<noteq> ''exit''
   \<and> posts (fst (loop_body (mock_server (Inr \<lparr>status_code = 200, body_text = ''ok''\<rparr>)) ()
                   '' http://a '')) =
       [\<lparr>req_method = ''POST'', req_url = ''http://localhost:4567/analyze'',
         req_data = [(''url'', ''http://a'')]\<rparr>]"
proof -
  have a: "strip '' http://a '' \<noteq> []" by (simp add: strip_url_example)
  have b: "lower (strip '' http://a '') \<noteq> ''exit''"
    by (simp only: strip_url_example lower_url_example not_False_eq_True)
  show ?thesis
    using a b
      one_post_with_trimmed_line [OF a b,
        of "mock_server (Inr \<lparr>status_code = 200, body_text = ''ok''\<rparr>)" "()"]
    by (simp add: strip_url_example)
qed

text \<open>
  C1, the counterexample: the line \<open>" http://a "\<close> is not empty when trimmed and is not "exit", and the request
  issued for it does not carry the line as typed.
\<close>

theorem raw_line_is_not_posted:
  "strip '' http://a '' \<noteq> [] \<and> lower (strip '' http://a '') \<noteq> ''exit''
   \<and> posts (fst (loop_body (mock_server (Inr \<lparr>status_code = 200, body_text = ''ok''\<rparr>)) ()
                   '' http://a '')) \<noteq>
       [\<lparr>req_method = ''POST'', req_url = ''http://localhost:4567/analyze'',
         req_data = [(''url'', '' http://a '')]\<rparr>]"
proof -
  have a: "strip '' http://a '' \<noteq> []" by (simp add: strip_url_example)
  have b: "lower (strip '' http://a '') \<noteq> ''exit''"
    by (simp only: strip_url_example lower_url_example not_False_eq_True)
  show ?thesis
    using a b by (simp add: loop_body_send send_url_posts analyze_request_def strip_url_example)
qed

text \<open>
  C2: when the HTTP call of a request raises an exception \<open>e\<close>, \<open>send_url_to_server\<close>
  catches it, prints \<open>An error occurred: \<close> followed by \<open>str(e)\<close> and returns normally; the pass
  through the loop ends with \<open>Continue\<close>, never with the exception; the loop goes on with the
  rest of standard input, and the next thing it does is to write the prompt.
\<close>

theorem request_exception_is_contained:
  assumes "strip line \<noteq> []" and "lower (strip line) \<noteq> ''exit''"
    and "post w (analyze_request (strip line)) = (Inl e, w')"
  shows "send_url_to_server post w (strip line) =
           ([Post (analyze_request (strip line)),
             Print (''An error occurred: '' @ exc_str e)], Inr (), w')
       \<and> loop_body post w line =
           ([Prompt ''URL: '', Post (analyze_request (strip line)),
             Print (''An error occurred: '' @ exc_str e)], Continue, w')
       \<and> main_loop post w (Line line # rest) =
           ([Prompt ''URL: '', Post (analyze_request (strip line)),
             Print (''An error occurred: '' @ exc_str e)] @ fst (main_loop post w' rest),
            snd (main_loop post w' rest))
       \<and> hd (fst (main_loop post w' rest)) = Prompt ''URL: ''"
proof -
  have s: "send_url_to_server post w (strip line) =
           ([Post (analyze_request (strip line)),
             Print (''An error occurred: '' @ exc_str e)], Inr (), w')"
    using assms(3) by (rule send_url_raised)
  have b: "loop_body post w line =
           ([Prompt ''URL: '', Post (analyze_request (strip line)),
             Print (''An error occurred: '' @ exc_str e)], Continue, w')"
    using assms(1,2) by (simp add: loop_body_send s)
  show ?thesis
    using assms(2) by (simp add: s b main_loop_continue main_loop_starts_with_prompt
        del: main_loop.simps)
qed

theorem request_exception_is_contained_witness:
  "strip ''http://a'' \<noteq> [] \<and> lower (strip ''http://a'') \<noteq> ''exit''
   \<and> main_loop (mock_server (Inl (PyException ''ConnectionError'' ''Connection refused''))) ()
        [Line ''http://a'', Line ''exit''] =
       ([Prompt ''URL: '',
         Post \<lparr>req_method = ''POST'', req_url = ''http://localhost:4567/analyze'',
               req_data = [(''url'', ''http://a'')]\<rparr>,
         Print ''An error occurred: Connection refused'',
         Prompt ''URL: '', Print ''Exiting...''], Inr (), ())"
proof -
  let ?post = "mock_server (Inl (PyException ''ConnectionError'' ''Connection refused''))"
  have a: "strip ''http://a'' \<noteq> []" by (simp add: example_lines)
  have b: "lower (strip ''http://a'') \<noteq> ''exit''"
    by (simp only: example_lines lower_url_example not_False_eq_True)
  have c: "?post () (analyze_request (strip ''http://a'')) =
             (Inl (PyException ''ConnectionError'' ''Connection refused''), ())"
    by (simp add: mock_server_def)
  have d: "lower (strip ''exit'') = ''exit''"
    by (simp add: strip_exit_examples lower_exit_examples)
  show ?thesis
    using a b request_exception_is_contained
        [where post = "?post" and w = "()" and w' = "()" and line = "''http://a''"
           and e = "PyException ''ConnectionError'' ''Connection refused''"
           and rest = "[Line ''exit'']", OF a b c]
    by (simp add: example_lines analyze_request_def main_loop_break [OF d] del: main_loop.simps)
qed

text \<open>
  C3: for every input line whose trimmed form is "exit" in any casing, the pass through the
  loop prints the farewell message \<open>Exiting...\<close> and breaks, so the loop returns without
  reading what is left of standard input, and no HTTP request is issued.
\<close>

theorem exit_line_ends_loop:
  assumes "lower (strip line) = ''exit''"
  shows "loop_body post w line = ([Prompt ''URL: '', Print ''Exiting...''], Break, w)
       \<and> main_loop post w (Line line # rest) =
           ([Prompt ''URL: '', Print ''Exiting...''], Inr (), w)
       \<and> posts (fst (main_loop post w (Line line # rest))) = []"
  using assms by (simp add: loop_body_exit)

theorem exit_line_ends_loop_witness:
  "lower (strip ''EXIT'') = ''exit''
   \<and> main_loop (mock_server (Inr \<lparr>status_code = 200, body_text = ''ok''\<rparr>)) ()
        [Line ''EXIT'', Line ''http://a''] =
        ([Prompt ''URL: '', Print ''Exiting...''], Inr (), ())
   \<and> lower (strip ''  Exit '') = ''exit''
   \<and> main_loop (mock_server (Inr \<lparr>status_code = 200, body_text = ''ok''\<rparr>)) ()
        [Line ''  Exit '', Line ''http://a''] =
        ([Prompt ''URL: '', Print ''Exiting...''], Inr (), ())"
proof -
  have a: "lower (strip ''EXIT'') = ''exit''" and b: "lower (strip ''  Exit '') = ''exit''"
    by (simp_all add: strip_exit_examples lower_exit_examples)
  show ?thesis
    using a b
      exit_line_ends_loop [OF a,
        of "mock_server (Inr \<lparr>status_code = 200, body_text = ''ok''\<rparr>)" "()"
           "[Line ''http://a'']"]
      exit_line_ends_loop [OF b,
        of "mock_server (Inr \<lparr>status_code = 200, body_text = ''ok''\<rparr>)" "()"
           "[Line ''http://a'']"]
    by simp
qed

text \<open>
  C4: the loop refines the two-state machine of the specification. One pass over a line
  that was read leaves the program where \<open>spec_step\<close> leaves the machine from
  \<open>AwaitingInput\<close>, whatever the HTTP call does (so never with an exception); over a whole
  standard input of lines, the loop returns normally exactly when the machine has reached
  \<open>Terminated\<close>, and otherwise it is still asking for input when the input ends; and the
  machine reaches \<open>Terminated\<close> exactly when one of the lines is "exit" when trimmed, in any
  casing.
\<close>

theorem loop_is_two_state_machine:
  "state_after (fst (snd (loop_body post w line))) = Some (spec_step AwaitingInput line)
   \<and> fst (snd (main_loop post w (map Line ls))) =
       (if foldl spec_step AwaitingInput ls = Terminated then Inr () else Inl EOFError)
   \<and> (foldl spec_step AwaitingInput ls = Terminated \<longleftrightarrow>
        (\<exists>l\<in>set ls. lower (strip l) = ''exit''))"
  by (simp add: loop_body_control main_loop_lines_result spec_run_Terminated_iff)

theorem loop_is_two_state_machine_witness:
  "fst (snd (main_loop (mock_server (Inr \<lparr>status_code = 200, body_text = ''ok''\<rparr>)) ()
       (map Line [''http://a'', [], ''EXIT'', ''b'']))) = Inr ()
   \<and> fst (snd (main_loop (mock_server (Inr \<lparr>status_code = 500, body_text = ''ok''\<rparr>)) ()
       (map Line [''http://a'', [], ''b'']))) = Inl EOFError"
  using loop_is_two_state_machine
    [of "mock_server (Inr \<lparr>status_code = 200, body_text = ''ok''\<rparr>)" "()" _
        "[''http://a'', [], ''EXIT'', ''b'']"]
    loop_is_two_state_machine
    [of "mock_server (Inr \<lparr>status_code = 500, body_text = ''ok''\<rparr>)" "()" _
        "[''http://a'', [], ''b'']"]
  by (simp add: lower_url_example example_lines strip_exit_examples lower_exit_examples
      foldl_spec_step_Terminated del: main_loop.simps)



text \<open>
  C6: for every request answered with a status code other than 200, exactly one line is
  printed, the error message that ends with the status code in decimal; and the body of
  the response has no influence on what \<open>send_url_to_server\<close> does: with the body replaced
  by any other string \<open>b\<close> the effects and the result are the same.
\<close>

theorem other_status_prints_code_only:
  assumes "post w (analyze_request url) = (Inr resp, w')" and "status_code resp \<noteq> 200"
  shows "prints (fst (send_url_to_server post w url)) =
           [''Error occurred while sending the request. Response code: ''
            @ str_int (status_code resp)]
       \<and> send_url_to_server
           (\<lambda>v r. case post v r of
                     (Inr rr, v') \<Rightarrow> (Inr (rr\<lparr>body_text := b\<rparr>), v')
                   | (Inl x, v') \<Rightarrow> (Inl x, v')) w url =
         send_url_to_server post w url"
proof -
  let ?post' = "\<lambda>v r. case post v r of
                     (Inr rr, v') \<Rightarrow> (Inr (rr\<lparr>body_text := b\<rparr>), v')
                   | (Inl x, v') \<Rightarrow> (Inl x, v')"
  have "?post' w (analyze_request url) = (Inr (resp\<lparr>body_text := b\<rparr>), w')"
    using assms(1) by simp
  moreover have "status_code (resp\<lparr>body_text := b\<rparr>) \<noteq> 200"
    using assms(2) by simp
  ultimately have "send_url_to_server ?post' w url =
     ([Post (analyze_request url),
       Print (''Error occurred while sending the request. Response code: ''
              @ str_int (status_code (resp\<lparr>body_text := b\<rparr>)))], Inr (), w')"
    by (rule send_url_other)
  then show ?thesis
    using assms by (simp add: send_url_other)
qed

theorem other_status_prints_code_only_witness:
  "prints (fst (send_url_to_server
      (mock_server (Inr \<lparr>status_code = 404, body_text = ''Not Found''\<rparr>)) ()
      ''http://a'')) =
     [''Error occurred while sending the request. Response code: 404'']"
proof -
  let ?resp = "\<lparr>status_code = 404, body_text = ''Not Found''\<rparr>"
  have a: "mock_server (Inr ?resp) () (analyze_request ''http://a'') = (Inr ?resp, ())"
    by (simp add: mock_server_def)
  have b: "status_code ?resp \<noteq> 200" by simp
  show ?thesis
    using other_status_prints_code_only
        [where post = "mock_server (Inr ?resp)" and w = "()" and w' = "()"
           and url = "''http://a''" and resp = "?resp", OF a b]
    by (simp add: str_int_404)
qed

text \<open>
  C7: for every input line whose trimmed form is empty, the pass through the loop issues no
  HTTP request, prints \<open>Please enter a valid URL.\<close> and continues: the loop goes on with the
  rest of standard input, and the next thing it does is to write the prompt.
\<close>

theorem empty_line_asks_again:
  assumes "strip line = []"
  shows "loop_body post w line =
           ([Prompt ''URL: '', Print ''Please enter a valid URL.''], Continue, w)
       \<and> posts (fst (loop_body post w line)) = []
       \<and> main_loop post w (Line line # rest) =
           ([Prompt ''URL: '', Print ''Please enter a valid URL.''] @ fst (main_loop post w rest),
            snd (main_loop post w rest))
       \<and> hd (fst (main_loop post w rest)) = Prompt ''URL: ''"
  using assms
  by (simp add: loop_body_empty main_loop_starts_with_prompt split: prod.splits)

theorem empty_line_asks_again_witness:
  "strip ''   '' = []
   \<and> main_loop (mock_server (Inr \<lparr>status_code = 200, body_text = ''ok''\<rparr>)) ()
        [Line ''   '', Line ''exit''] =
        ([Prompt ''URL: '', Print ''Please enter a valid URL.'',
          Prompt ''URL: '', Print ''Exiting...''], Inr (), ())"
proof -
  have a: "strip ''   '' = []" by (simp add: strip_def isspace_def)
  have b: "lower (strip ''exit'') = ''exit''"
    by (simp add: strip_exit_examples lower_exit_examples)
  show ?thesis
    using a
      empty_line_asks_again [OF a,
        of "mock_server (Inr \<lparr>status_code = 200, body_text = ''ok''\<rparr>)" "()"
           "[Line ''exit'']"]
    by (simp add: loop_body_exit [OF b])
qed



text \<open>
  C9: the requests of a whole run are, in order, one for each line read before the first
  "exit" line (and before the first failing read) whose trimmed form is not empty, and the
  \<open>url\<close> field of each is that line stripped, not the line as typed. The stripped line is
  the line without a prefix and a suffix that are all whitespace, and it neither starts nor
  ends with whitespace.
\<close>

theorem posted_url_is_trimmed_line:
  "posts (fst (main post w stdin)) =
     map (\<lambda>l. analyze_request (strip l)) (filter (\<lambda>l. strip l \<noteq> []) (lines_read stdin))
   \<and> req_data (analyze_request (strip line)) = [(''url'', strip line)]
   \<and> (\<exists>pre suf. line = pre @ strip line @ suf \<and> list_all isspace pre \<and> list_all isspace suf)
   \<and> (strip line = [] \<or> (\<not> isspace (hd (strip line)) \<and> \<not> isspace (last (strip line))))"
proof -
  have "posts (fst (main post w stdin)) = posts (fst (main_loop post w stdin))"
    by (simp add: main_effects)
  moreover have "\<exists>pre suf. line = pre @ strip line @ suf \<and> list_all isspace pre \<and> list_all isspace suf"
    using strip_decomp [of line] by (simp add: list_all_iff)
  moreover have "strip line = [] \<or> (\<not> isspace (hd (strip line)) \<and> \<not> isspace (last (strip line)))"
    using strip_ends [of line] by blast
  ultimately show ?thesis
    by (simp add: posts_main_loop analyze_request_def)
qed

theorem posted_url_is_trimmed_line_witness:
  "posts (fst (main (mock_server (Inr \<lparr>status_code = 200, body_text = ''ok''\<rparr>)) ()
       [Line '' http://a '', Line [], Line ''b'', Line ''EXIT'', Line ''c''])) =
     [\<lparr>req_method = ''POST'', req_url = ''http://localhost:4567/analyze'',
       req_data = [(''url'', ''http://a'')]\<rparr>,
      \<lparr>req_method = ''POST'', req_url = ''http://localhost:4567/analyze'',
       req_data = [(''url'', ''b'')]\<rparr>]"
  using posted_url_is_trimmed_line
    [of "mock_server (Inr \<lparr>status_code = 200, body_text = ''ok''\<rparr>)" "()"
        "[Line '' http://a '', Line [], Line ''b'', Line ''EXIT'', Line ''c'']"]
  by (simp add: strip_url_example lower_url_example example_lines strip_exit_examples
      lower_exit_examples analyze_request_def)

text \<open>
  C10: an exception raised while reading at the prompt is not caught. When no line of
  standard input is "exit", the run ends at the prompt with \<open>EOFError\<close> propagating out of
  \<open>main\<close>; when a read raises \<open>e\<close> before any "exit" line, \<open>e\<close> propagates out of \<open>main\<close>. In
  both cases the last thing the program did was to write the prompt: no farewell message is
  printed after it.
\<close>

theorem read_exception_leaves_loop:
  assumes "list_all (\<lambda>l. lower (strip l) \<noteq> ''exit'') ls"
  shows "fst (snd (main post w (map Line ls))) = Inl EOFError
       \<and> last (fst (main post w (map Line ls))) = Prompt ''URL: ''
       \<and> fst (snd (main post w (map Line ls @ ReadRaises e # rest))) = Inl e
       \<and> last (fst (main post w (map Line ls @ ReadRaises e # rest))) = Prompt ''URL: ''"
proof -
  from main_loop_skips [OF assms, of post w "[]"] obtain effs w' where
    "fst (main_loop post w (map Line ls)) = effs @ [Prompt ''URL: '']"
    "fst (snd (main_loop post w (map Line ls))) = Inl EOFError"
    by auto
  moreover from main_loop_skips [OF assms, of post w "ReadRaises e # rest"] obtain effs2 w2 where
    "fst (main_loop post w (map Line ls @ ReadRaises e # rest)) = effs2 @ [Prompt ''URL: '']"
    "fst (snd (main_loop post w (map Line ls @ ReadRaises e # rest))) = Inl e"
    by auto
  ultimately show ?thesis
    by (simp add: main_effects main_result)
qed

theorem read_exception_leaves_loop_witness:
  "list_all (\<lambda>l. lower (strip l) \<noteq> ''exit'') [''http://a'', []]
   \<and> fst (snd (main (mock_server (Inr \<lparr>status_code = 200, body_text = ''ok''\<rparr>)) ()
                  [Line ''http://a'', Line []])) = Inl EOFError
   \<and> last (fst (main (mock_server (Inr \<lparr>status_code = 200, body_text = ''ok''\<rparr>)) ()
                  [Line ''http://a'', Line []])) = Prompt ''URL: ''
   \<and> fst (snd (main (mock_server (Inr \<lparr>status_code = 200, body_text = ''ok''\<rparr>)) ()
                  [Line ''http://a'', Line [],
                   ReadRaises (PyException ''UnicodeDecodeError'' ''invalid start byte''),
                   Line ''exit''])) =
       Inl (PyException ''UnicodeDecodeError'' ''invalid start byte'')"
proof -
  have a: "list_all (\<lambda>l. lower (strip l) \<noteq> ''exit'') [''http://a'', []]"
    by (simp add: example_lines lower_url_example)
  show ?thesis
    using a read_exception_leaves_loop [OF a,
        of "mock_server (Inr \<lparr>status_code = 200, body_text = ''ok''\<rparr>)" "()"
           "PyException ''UnicodeDecodeError'' ''invalid start byte''" "[Line ''exit'']"]
    by (simp del: main_loop.simps)
qed

end
